theory Spec2Isabelle
  imports Main "HOL-Library.Sublist"
begin

section \<open>Python strings\<close>

text \<open>
  A Python \<open>str\<close> is a sequence of Unicode code points. A code point is a natural
  number here, so a character beyond ASCII (the source has one, U+2019, in the
  intensified apology) is one element, as it is for Python's \<open>len\<close>, \<open>in\<close> and slicing.
  A literal of the source is written \<open>lit ''...''\<close>.
\<close>

type_synonym str = "nat list"

definition lit :: "string \<Rightarrow> str" where
  "lit s = map of_char s"

text \<open>
  \<open>str.lower\<close>. On a string of ASCII characters only it maps \<open>A\<close>..\<open>Z\<close> to
  \<open>a\<close>..\<open>z\<close> and leaves every other character alone. On a string with a character
  beyond ASCII the result comes from the case-mapping tables of the Unicode database
  of the Python runtime, which are no part of the repository: that function is the
  parameter \<open>ucd\<close> of \<open>lower\<close> and of every function that lowercases its text.
\<close>

definition ascii_lower :: "nat \<Rightarrow> nat" where
  "ascii_lower c = (if 65 \<le> c \<and> c \<le> 90 then c + 32 else c)"

definition isascii :: "str \<Rightarrow> bool" where
  "isascii s = list_all (\<lambda>c. c < 128) s"

definition lower :: "(str \<Rightarrow> str) \<Rightarrow> str \<Rightarrow> str" where
  "lower ucd s = (if isascii s then map ascii_lower s else ucd s)"

text \<open>\<open>sub in s\<close> on strings: \<open>sub\<close> occurs in \<open>s\<close> as a contiguous run.\<close>

fun contains :: "str \<Rightarrow> str \<Rightarrow> bool" where
  "contains sub [] = (sub = [])"
| "contains sub (c # cs) = (prefix sub (c # cs) \<or> contains sub cs)"

text \<open>\<open>sep.join(xs)\<close>.\<close>

fun join :: "str \<Rightarrow> str list \<Rightarrow> str" where
  "join sep [] = []"
| "join sep [x] = x"
| "join sep (x # y # ys) = x @ sep @ join sep (y # ys)"

text \<open>
  \<open>str.strip()\<close> removes leading and trailing whitespace; the whitespace characters
  are those for which \<open>str.isspace\<close> holds.
\<close>

definition whitespace :: "nat list" where
  "whitespace = [0x9, 0xA, 0xB, 0xC, 0xD, 0x1C, 0x1D, 0x1E, 0x1F, 0x20, 0x85, 0xA0,
     0x1680, 0x2000, 0x2001, 0x2002, 0x2003, 0x2004, 0x2005, 0x2006, 0x2007, 0x2008,
     0x2009, 0x200A, 0x2028, 0x2029, 0x202F, 0x205F, 0x3000]"

definition isspace :: "nat \<Rightarrow> bool" where
  "isspace c = (c \<in> set whitespace)"

definition strip :: "str \<Rightarrow> str" where
  "strip s = rev (dropWhile isspace (rev (dropWhile isspace s)))"

text \<open>Exceptions of the source are values.\<close>

datatype error = ValueError | IndexError | CapabilityError

text \<open>
  \<open>s.split(sep, 1)\<close>: the text before and the text after the first occurrence of
  \<open>sep\<close>, or \<open>s\<close> alone when \<open>sep\<close> does not occur; an empty separator raises.
\<close>

fun partition_first :: "str \<Rightarrow> str \<Rightarrow> (str \<times> str) option" where
  "partition_first sep [] = None"
| "partition_first sep (c # cs) =
     (if prefix sep (c # cs) then Some ([], drop (length sep) (c # cs))
      else (case partition_first sep cs of
              None \<Rightarrow> None
            | Some (before, after) \<Rightarrow> Some (c # before, after)))"

definition split1 :: "str \<Rightarrow> str \<Rightarrow> error + str list" where
  "split1 s sep =
     (if sep = [] then Inl ValueError
      else (case partition_first sep s of
              None \<Rightarrow> Inr [s]
            | Some (before, after) \<Rightarrow> Inr [before, after]))"

text \<open>\<open>xs[-1]\<close>: the last element; IndexError on the empty list.\<close>

definition index_last :: "'a list \<Rightarrow> error + 'a" where
  "index_last xs = (if xs = [] then Inl IndexError else Inr (last xs))"

text \<open>
  \<open>xs[:n]\<close> for an integer \<open>n\<close>: the first \<open>n\<close> elements, and for a negative \<open>n\<close>
  all but the last \<open>-n\<close>.
\<close>

definition slice_to :: "'a list \<Rightarrow> int \<Rightarrow> 'a list" where
  "slice_to xs n = (if 0 \<le> n then take (nat n) xs else take (nat (int (length xs) + n)) xs)"

section \<open>Aspect and sentiment logic\<close>

definition ASPECT_KEYWORDS :: "(str \<times> str list) list" where
  "ASPECT_KEYWORDS =
     [(lit ''food'', [lit ''food'', lit ''taste'', lit ''noodle'', lit ''soup'', lit ''broth'',
         lit ''dish'', lit ''meal'', lit ''menu'', lit ''flavor'', lit ''fresh'', lit ''cold'',
         lit ''hot'']),
      (lit ''service'', [lit ''service'', lit ''staff'', lit ''waiter'', lit ''server'',
         lit ''slow'', lit ''rude'', lit ''friendly'', lit ''attentive'']),
      (lit ''ambiance'', [lit ''ambience'', lit ''atmosphere'', lit ''music'', lit ''noise'',
         lit ''crowd'', lit ''clean'', lit ''dirty'', lit ''decor'', lit ''lighting'',
         lit ''seat'']),
      (lit ''price'', [lit ''price'', lit ''cost'', lit ''expensive'', lit ''cheap'',
         lit ''value'', lit ''overpriced'', lit ''bill'']),
      (lit ''delivery'', [lit ''delivery'', lit ''takeaway'', lit ''pickup'',
         lit ''packaging''])]"

definition NEG_STRONG_TERMS :: "str list" where
  "NEG_STRONG_TERMS = [lit ''terrible'', lit ''awful'', lit ''horrible'', lit ''worst'',
     lit ''disgusting'', lit ''refund'', lit ''complaint'', lit ''unacceptable'']"

text \<open>The generator expression \<open>sum(1 for kw in kws if kw in text_l)\<close>.\<close>

definition score :: "str list \<Rightarrow> str \<Rightarrow> int" where
  "score kws text_l = sum_list (map (\<lambda>kw. 1) (filter (\<lambda>kw. contains kw text_l) kws))"

text \<open>
  The loop of \<open>detect_aspects\<close> over the items of the dictionary, in insertion order:
  one step appends the pair of a category with a positive score to \<open>hits\<close>.
\<close>

definition hit_step :: "str \<Rightarrow> (str \<times> int) list \<Rightarrow> str \<times> str list \<Rightarrow> (str \<times> int) list" where
  "hit_step text_l hits item =
     (case item of (aspect, kws) \<Rightarrow>
        (let sc = score kws text_l in if sc > 0 then hits @ [(aspect, sc)] else hits))"

definition collect_hits :: "(str \<times> str list) list \<Rightarrow> str \<Rightarrow> (str \<times> int) list" where
  "collect_hits items text_l = foldl (hit_step text_l) [] items"

text \<open>
  \<open>hits.sort(key=lambda x: x[1], reverse=True)\<close>: Python's sort is stable, also
  with \<open>reverse=True\<close> (elements with equal keys keep their order), so it is the
  stable sort by the negated score.
\<close>

definition sort_hits :: "(str \<times> int) list \<Rightarrow> (str \<times> int) list" where
  "sort_hits hits = sort_key (\<lambda>x. - snd x) hits"

definition detect_aspects :: "(str \<Rightarrow> str) \<Rightarrow> str \<Rightarrow> int \<Rightarrow> str list" where
  "detect_aspects ucd text max_aspects =
     (let text_l = lower ucd text;
          hits = sort_hits (collect_hits ASPECT_KEYWORDS text_l);
          aspects = map fst (slice_to hits max_aspects)
      in if aspects = [] then [lit ''no specific aspect''] else aspects)"

definition is_strong_negative :: "(str \<Rightarrow> str) \<Rightarrow> str \<Rightarrow> bool" where
  "is_strong_negative ucd text =
     (let t = lower ucd text in list_ex (\<lambda>trm. contains trm t) NEG_STRONG_TERMS)"

text \<open>
  The dataclass. Nothing modelled here computes with the confidence, a Python float,
  so its type is left open.
\<close>

record 'f SentimentResult =
  label :: str
  confidence :: 'f

text \<open>
  The two f-string parts of \<open>build_template_reply\<close> that do not depend on the label
  chain are definitions of their own: the salutation \<open>name_prefix\<close> (a name that is
  \<open>None\<close> or empty is falsy) and the \<open>apology\<close> of the last branch.
\<close>

definition name_prefix :: "str option \<Rightarrow> str" where
  "name_prefix customer_name =
     (case customer_name of
        None \<Rightarrow> lit ''Hi there,''
      | Some n \<Rightarrow> if n \<noteq> [] then lit ''Hi '' @ n @ lit '','' else lit ''Hi there,'')"

definition apology :: "(str \<Rightarrow> str) \<Rightarrow> str \<Rightarrow> str" where
  "apology ucd review =
     (if \<not> is_strong_negative ucd review then lit ''We're sorry''
      else lit ''We'' @ [0x2019] @ lit ''re truly sorry'')"

definition build_template_reply ::
  "(str \<Rightarrow> str) \<Rightarrow> str \<Rightarrow> 'f SentimentResult \<Rightarrow> str list \<Rightarrow> str option \<Rightarrow> str" where
  "build_template_reply ucd review sentiment aspects customer_name =
     (let aspect_str = join (lit '', '') aspects;
          (body, closing) =
            (if label sentiment = lit ''positive'' then
               (lit '' thank you for the wonderful feedback! We're thrilled that you enjoyed the ''
                  @ aspect_str @ lit ''. Your kind words mean a lot to our team.'',
                lit ''Warm thanks, SteamNoodles Team'')
             else if label sentiment = lit ''neutral'' then
               (lit '' thanks for sharing your thoughts. We will keep your notes about the ''
                  @ aspect_str @ lit '' in mind as we improve.'',
                lit ''Kind regards, SteamNoodles Team'')
             else
               (lit '' '' @ apology ucd review @ lit '' that your experience with the ''
                  @ aspect_str
                  @ lit '' didn't meet expectations. Your feedback helps us improve.'',
                lit ''Sincerely, SteamNoodles Support''))
      in name_prefix customer_name @ body @ lit ''\<newline>\<newline>'' @ closing)"

section \<open>The paraphrase step and the generator handle\<close>

text \<open>
  The text generator comes from the \<open>transformers\<close> library, which is outside the
  repository. The library is a record of its two operations: \<open>pipeline\<close>, the
  construction of a text-generation handle, and \<open>generate\<close>, a call of a handle on a
  prompt that returns the \<open>generated_text\<close> of its first sequence. Either may raise.
  The generator samples, so its output may depend on the calls made before.

  The state of the process is the module variable \<open>_gen_pipe\<close> and the log of the calls
  made to the library, the latest last.
\<close>

datatype event = PipelineCalled | GeneratorCalled str

record 'h world =
  gen_pipe :: "'h option"
  events :: "event list"

record 'h transformers =
  pipeline :: "error + 'h"
  generate :: "'h \<Rightarrow> event list \<Rightarrow> str \<Rightarrow> error + str"

definition get_gen_pipe :: "'h transformers \<Rightarrow> 'h world \<Rightarrow> (error + 'h) \<times> 'h world" where
  "get_gen_pipe lib w =
     (case gen_pipe w of
        Some h \<Rightarrow> (Inr h, w)
      | None \<Rightarrow>
          (case pipeline lib of
             Inl e \<Rightarrow> (Inl e, w\<lparr>events := events w @ [PipelineCalled]\<rparr>)
           | Inr h \<Rightarrow> (Inr h, w\<lparr>gen_pipe := Some h, events := events w @ [PipelineCalled]\<rparr>)))"

text \<open>The extraction \<open>out.split("Paraphrase:", 1)[-1].strip()\<close>.\<close>

definition paraphrased :: "str \<Rightarrow> error + str" where
  "paraphrased out =
     (case split1 out (lit ''Paraphrase:'') of
        Inl e \<Rightarrow> Inl e
      | Inr parts \<Rightarrow>
          (case index_last parts of
             Inl e \<Rightarrow> Inl e
           | Inr p \<Rightarrow> Inr (strip p)))"

definition maybe_paraphrase ::
  "'h transformers \<Rightarrow> str \<Rightarrow> bool \<Rightarrow> 'h world \<Rightarrow> (error + str) \<times> 'h world" where
  "maybe_paraphrase lib reply enable_generation w =
     (if \<not> enable_generation then (Inr reply, w)
      else
        (case get_gen_pipe lib w of
           (Inl e, w1) \<Rightarrow> (Inl e, w1)
         | (Inr gen, w1) \<Rightarrow>
             (let prompt = lit ''Paraphrase politely and concisely (2 sentences max). Original: ''
                             @ reply @ lit ''\<newline>Paraphrase:'';
                  w2 = w1\<lparr>events := events w1 @ [GeneratorCalled prompt]\<rparr>
              in (case generate lib gen (events w1) prompt of
                    Inl e \<Rightarrow> (Inl e, w2)
                  | Inr out \<Rightarrow> (paraphrased out, w2)))))"

text \<open>
  A library for concrete runs: the construction of the handle succeeds and the
  generator answers every prompt with the same text \<open>out\<close>.
\<close>

definition fixed_output_lib :: "str \<Rightarrow> nat transformers" where
  "fixed_output_lib out = \<lparr>pipeline = Inr 0, generate = (\<lambda>h history prompt. Inr out)\<rparr>"

definition fresh_world :: "nat world" where
  "fresh_world = \<lparr>gen_pipe = None, events = []\<rparr>"

section \<open>The ranking in the words of the specification\<close>

text \<open>
  The hit count of a category for a lowercased text is the number of its keywords that
  occur in the text, each keyword counted once. A category ranks before another when
  its hit count is larger, or when the counts are equal and it comes earlier in the
  enumeration of the categories. A name that is no category has no keywords, hit count
  0, and the position after the last category.
\<close>

definition keywords_of :: "str \<Rightarrow> str list" where
  "keywords_of aspect = (case map_of ASPECT_KEYWORDS aspect of None \<Rightarrow> [] | Some kws \<Rightarrow> kws)"

definition hit_count :: "str \<Rightarrow> str \<Rightarrow> nat" where
  "hit_count aspect text_l = card {kw \<in> set (keywords_of aspect). contains kw text_l}"

definition enum_index :: "str \<Rightarrow> nat" where
  "enum_index aspect = length (takeWhile (\<lambda>a. a \<noteq> aspect) (map fst ASPECT_KEYWORDS))"

definition ranks_before :: "str \<Rightarrow> str \<Rightarrow> str \<Rightarrow> bool" where
  "ranks_before text_l a b \<longleftrightarrow>
     hit_count b text_l < hit_count a text_l
     \<or> (hit_count a text_l = hit_count b text_l \<and> enum_index a < enum_index b)"

section \<open>Facts about the string operations\<close>

lemma contains_sublist: "contains sub s = sublist sub s"
  by (induction s) (simp_all add: sublist_Cons_right)

lemma contains_iff: "contains sub s \<longleftrightarrow> (\<exists>pre post. s = pre @ sub @ post)"
  by (simp add: contains_sublist sublist_def)

lemmas eval_text = lower_def isascii_def lit_def ascii_lower_def

section \<open>The severity heuristic\<close>

text \<open>
  Claim C7. For every text, \<open>is_strong_negative\<close> is true if and only if one of the eight
  terms of the lexicon ("terrible", "awful", "horrible", "worst", "disgusting", "refund",
  "complaint", "unacceptable") occurs in the lowercased text as a substring. It is false
  for "the soup was cold" and true for "this is unacceptable".
\<close>

theorem is_strong_negative_iff:
  "(is_strong_negative ucd text \<longleftrightarrow>
      (\<exists>t \<in> set [lit ''terrible'', lit ''awful'', lit ''horrible'', lit ''worst'',
                  lit ''disgusting'', lit ''refund'', lit ''complaint'', lit ''unacceptable''].
         \<exists>pre post. lower ucd text = pre @ t @ post))
   \<and> \<not> is_strong_negative ucd (lit ''the soup was cold'')
   \<and> is_strong_negative ucd (lit ''this is unacceptable'')"
proof (intro conjI)
  show "is_strong_negative ucd text \<longleftrightarrow>
      (\<exists>t \<in> set [lit ''terrible'', lit ''awful'', lit ''horrible'', lit ''worst'',
                  lit ''disgusting'', lit ''refund'', lit ''complaint'', lit ''unacceptable''].
         \<exists>pre post. lower ucd text = pre @ t @ post)"
    unfolding is_strong_negative_def NEG_STRONG_TERMS_def Let_def list_ex_iff
    by (simp only: contains_iff)
  show "\<not> is_strong_negative ucd (lit ''the soup was cold'')"
    by (simp add: is_strong_negative_def NEG_STRONG_TERMS_def eval_text)
  show "is_strong_negative ucd (lit ''this is unacceptable'')"
    by (simp add: is_strong_negative_def NEG_STRONG_TERMS_def eval_text)
qed

theorem is_strong_negative_iff_witness:
  "is_strong_negative (\<lambda>s. s) (lit ''I want a REFUND'')
   \<and> (\<exists>pre post. lower (\<lambda>s. s) (lit ''I want a REFUND'') = pre @ lit ''refund'' @ post)"
proof -
  have d: "lower (\<lambda>s. s) (lit ''I want a REFUND'') = lit ''i want a '' @ lit ''refund'' @ []"
    by (simp add: eval_text)
  have m: "lit ''refund'' \<in> set [lit ''terrible'', lit ''awful'', lit ''horrible'', lit ''worst'',
                  lit ''disgusting'', lit ''refund'', lit ''complaint'', lit ''unacceptable'']"
    by simp
  have "is_strong_negative (\<lambda>s. s) (lit ''I want a REFUND'')"
    using is_strong_negative_iff [of "\<lambda>s. s" "lit ''I want a REFUND''", THEN conjunct1] d m
    by blast
  then show ?thesis using d by blast
qed

section \<open>The paraphrase step\<close>

text \<open>
  Claim C8. With generation disabled, \<open>maybe_paraphrase\<close> is the identity on the draft:
  it returns the draft, and the state of the process is the one it started from, so the
  generator handle is not constructed and no call of the library is logged.
\<close>

theorem maybe_paraphrase_disabled:
  "maybe_paraphrase lib draft False w = (Inr draft, w)"
  by (simp add: maybe_paraphrase_def)

theorem maybe_paraphrase_disabled_witness:
  "maybe_paraphrase (fixed_output_lib (lit ''x'')) (lit ''Hi there,'') False fresh_world
     = (Inr (lit ''Hi there,''), fresh_world)
   \<and> gen_pipe fresh_world = None \<and> events fresh_world = []"
  using maybe_paraphrase_disabled [of "fixed_output_lib (lit ''x'')" "lit ''Hi there,''" fresh_world]
  by (simp add: fresh_world_def)

text \<open>With generation enabled the log of library calls always grows.\<close>

lemma maybe_paraphrase_enabled_calls:
  "events (snd (maybe_paraphrase lib reply True w)) \<noteq> events w"
  by (auto simp: maybe_paraphrase_def get_gen_pipe_def Let_def split: option.splits sum.splits prod.splits)

section \<open>The reply template\<close>

text \<open>
  Claim C10. \<open>build_template_reply\<close> reads the sentiment through its label only: two
  sentiment results with the same label give the same reply for every review, aspect
  list and customer name, whatever their confidence values are.
\<close>

theorem sentiment_confidence_irrelevant:
  "label s1 = label s2 \<Longrightarrow>
     build_template_reply ucd review s1 aspects customer_name
       = build_template_reply ucd review s2 aspects customer_name"
  unfolding build_template_reply_def by (simp only:)

theorem sentiment_confidence_irrelevant_witness:
  "label \<lparr>label = lit ''neutral'', confidence = (0::nat)\<rparr> = label \<lparr>label = lit ''neutral'', confidence = True\<rparr>
   \<and> build_template_reply (\<lambda>s. s) (lit ''ok'') \<lparr>label = lit ''neutral'', confidence = (0::nat)\<rparr> [lit ''food''] None
       = build_template_reply (\<lambda>s. s) (lit ''ok'') \<lparr>label = lit ''neutral'', confidence = True\<rparr> [lit ''food''] None"
  using sentiment_confidence_irrelevant [of "\<lparr>label = lit ''neutral'', confidence = (0::nat)\<rparr>"
      "\<lparr>label = lit ''neutral'', confidence = True\<rparr>" "\<lambda>s. s" "lit ''ok''" "[lit ''food'']" None]
  by simp

lemma prefix_contains: "prefix sub s \<Longrightarrow> contains sub s"
  by (simp add: contains_sublist)

lemma contains_append_right: "contains sub s \<Longrightarrow> contains sub (pre @ s @ post)"
  by (auto simp: contains_iff) (metis append.assoc)

text \<open>The reply of each branch of the label chain, written out.\<close>

lemma reply_positive:
  "label s = lit ''positive'' \<Longrightarrow>
     build_template_reply ucd review s aspects customer_name =
       name_prefix customer_name
       @ lit '' thank you for the wonderful feedback! We're thrilled that you enjoyed the ''
       @ join (lit '', '') aspects
       @ lit ''. Your kind words mean a lot to our team.''
       @ lit ''\<newline>\<newline>'' @ lit ''Warm thanks, SteamNoodles Team''"
  by (simp add: build_template_reply_def)

lemma neutral_not_positive: "lit ''neutral'' \<noteq> lit ''positive''"
  by (simp add: lit_def)

lemma reply_neutral:
  "label s = lit ''neutral'' \<Longrightarrow>
     build_template_reply ucd review s aspects customer_name =
       name_prefix customer_name
       @ lit '' thanks for sharing your thoughts. We will keep your notes about the ''
       @ join (lit '', '') aspects
       @ lit '' in mind as we improve.''
       @ lit ''\<newline>\<newline>'' @ lit ''Kind regards, SteamNoodles Team''"
  by (simp add: build_template_reply_def neutral_not_positive)

lemma reply_other:
  "label s \<noteq> lit ''positive'' \<Longrightarrow> label s \<noteq> lit ''neutral'' \<Longrightarrow>
     build_template_reply ucd review s aspects customer_name =
       name_prefix customer_name
       @ lit '' '' @ apology ucd review @ lit '' that your experience with the ''
       @ join (lit '', '') aspects
       @ lit '' didn't meet expectations. Your feedback helps us improve.''
       @ lit ''\<newline>\<newline>'' @ lit ''Sincerely, SteamNoodles Support''"
  by (simp add: build_template_reply_def)

lemma negative_not_others:
  "lit ''negative'' \<noteq> lit ''positive''" "lit ''negative'' \<noteq> lit ''neutral''"
  by (simp_all add: lit_def)

lemma apology_variants_differ:
  "lit ''We're sorry'' \<noteq> lit ''We'' @ [0x2019] @ lit ''re truly sorry''"
  by (simp add: lit_def)


lemma join_concat:
  "join sep xs = (if xs = [] then [] else concat (map (\<lambda>x. x @ sep) (butlast xs)) @ last xs)"
  by (induction sep xs rule: join.induct) simp_all

text \<open>
  Claim C1. The reply is the salutation, the body selected by the label, a blank line and
  the closing signature, in this order. The salutation is "Hi {name}," for a non-empty
  customer name and "Hi there," for an absent or empty one. The aspect phrase in the
  body is the aspects joined with ", " in the order given. For the label "positive", the
  aspects ["food"] and the name "Alice" the reply starts with "Hi Alice,", contains
  "food" and ends with the line "Warm thanks, SteamNoodles Team".
\<close>

theorem build_template_reply_composition:
  "(\<forall>n. customer_name = Some n \<and> n \<noteq> [] \<longrightarrow> name_prefix customer_name = lit ''Hi '' @ n @ lit '','')
   \<and> (customer_name = None \<or> customer_name = Some [] \<longrightarrow> name_prefix customer_name = lit ''Hi there,'')
   \<and> (label s = lit ''positive'' \<longrightarrow>
        build_template_reply ucd review s aspects customer_name =
          name_prefix customer_name
          @ lit '' thank you for the wonderful feedback! We're thrilled that you enjoyed the ''
          @ join (lit '', '') aspects
          @ lit ''. Your kind words mean a lot to our team.''
          @ lit ''\<newline>\<newline>'' @ lit ''Warm thanks, SteamNoodles Team'')
   \<and> (label s = lit ''neutral'' \<longrightarrow>
        build_template_reply ucd review s aspects customer_name =
          name_prefix customer_name
          @ lit '' thanks for sharing your thoughts. We will keep your notes about the ''
          @ join (lit '', '') aspects
          @ lit '' in mind as we improve.''
          @ lit ''\<newline>\<newline>'' @ lit ''Kind regards, SteamNoodles Team'')
   \<and> (label s \<noteq> lit ''positive'' \<and> label s \<noteq> lit ''neutral'' \<longrightarrow>
        build_template_reply ucd review s aspects customer_name =
          name_prefix customer_name
          @ lit '' '' @ apology ucd review @ lit '' that your experience with the ''
          @ join (lit '', '') aspects
          @ lit '' didn't meet expectations. Your feedback helps us improve.''
          @ lit ''\<newline>\<newline>'' @ lit ''Sincerely, SteamNoodles Support'')
   \<and> (aspects \<noteq> [] \<longrightarrow>
        join (lit '', '') aspects
          = concat (map (\<lambda>a. a @ lit '', '') (butlast aspects)) @ last aspects)
   \<and> (let reply = build_template_reply ucd review \<lparr>label = lit ''positive'', confidence = c\<rparr>
                     [lit ''food''] (Some (lit ''Alice''))
      in prefix (lit ''Hi Alice,'') reply \<and> contains (lit ''food'') reply
         \<and> suffix (lit ''\<newline>Warm thanks, SteamNoodles Team'') reply)"
proof (intro conjI)
  show "let reply = build_template_reply ucd review \<lparr>label = lit ''positive'', confidence = c\<rparr>
                     [lit ''food''] (Some (lit ''Alice''))
      in prefix (lit ''Hi Alice,'') reply \<and> contains (lit ''food'') reply
         \<and> suffix (lit ''\<newline>Warm thanks, SteamNoodles Team'') reply"
    by (simp add: reply_positive name_prefix_def lit_def suffix_to_prefix)
qed (simp_all add: name_prefix_def reply_positive reply_neutral reply_other join_concat)

theorem build_template_reply_composition_witness:
  "build_template_reply (\<lambda>s. s) (lit ''great soup'') \<lparr>label = lit ''positive'', confidence = (1::nat)\<rparr>
       [lit ''food'', lit ''service''] (Some (lit ''Alice''))
     = lit ''Hi Alice, thank you for the wonderful feedback! We're thrilled that you enjoyed the food, service. Your kind words mean a lot to our team.\<newline>\<newline>Warm thanks, SteamNoodles Team''
   \<and> build_template_reply (\<lambda>s. s) (lit ''soup'') \<lparr>label = lit ''neutral'', confidence = (1::nat)\<rparr>
       [lit ''food''] None
     = lit ''Hi there, thanks for sharing your thoughts. We will keep your notes about the food in mind as we improve.\<newline>\<newline>Kind regards, SteamNoodles Team''
   \<and> build_template_reply (\<lambda>s. s) (lit ''cold soup'') \<lparr>label = lit ''negative'', confidence = (1::nat)\<rparr>
       [lit ''food''] (Some [])
     = lit ''Hi there, We're sorry that your experience with the food didn't meet expectations. Your feedback helps us improve.\<newline>\<newline>Sincerely, SteamNoodles Support''"
proof (intro conjI)
  note t = build_template_reply_composition
  show "build_template_reply (\<lambda>s. s) (lit ''great soup'') \<lparr>label = lit ''positive'', confidence = (1::nat)\<rparr>
       [lit ''food'', lit ''service''] (Some (lit ''Alice''))
     = lit ''Hi Alice, thank you for the wonderful feedback! We're thrilled that you enjoyed the food, service. Your kind words mean a lot to our team.\<newline>\<newline>Warm thanks, SteamNoodles Team''"
    using t [of "Some (lit ''Alice'')" "\<lparr>label = lit ''positive'', confidence = (1::nat)\<rparr>" "\<lambda>s. s"
               "lit ''great soup''" "[lit ''food'', lit ''service'']" "0::nat"]
    by (simp add: lit_def)
  show "build_template_reply (\<lambda>s. s) (lit ''soup'') \<lparr>label = lit ''neutral'', confidence = (1::nat)\<rparr>
       [lit ''food''] None
     = lit ''Hi there, thanks for sharing your thoughts. We will keep your notes about the food in mind as we improve.\<newline>\<newline>Kind regards, SteamNoodles Team''"
    using t [of None "\<lparr>label = lit ''neutral'', confidence = (1::nat)\<rparr>" "\<lambda>s. s"
               "lit ''soup''" "[lit ''food'']" "0::nat"]
    by (simp add: lit_def)
  show "build_template_reply (\<lambda>s. s) (lit ''cold soup'') \<lparr>label = lit ''negative'', confidence = (1::nat)\<rparr>
       [lit ''food''] (Some [])
     = lit ''Hi there, We're sorry that your experience with the food didn't meet expectations. Your feedback helps us improve.\<newline>\<newline>Sincerely, SteamNoodles Support''"
    using t [of "Some []" "\<lparr>label = lit ''negative'', confidence = (1::nat)\<rparr>" "\<lambda>s. s"
               "lit ''cold soup''" "[lit ''food'']" "0::nat"]
    by (simp add: lit_def apology_def is_strong_negative_def NEG_STRONG_TERMS_def lower_def isascii_def ascii_lower_def)
qed


text \<open>
  Claim C5. For the label "negative" the apology is chosen by \<open>is_strong_negative\<close> on
  the review: the plain "We're sorry" when it is false, the intensified variant when it is
  true, and the two replies differ. For the labels "positive" and "neutral" the reply
  does not depend on the review, so a strong-negative term in the text changes nothing.
\<close>

theorem apology_by_severity:
  "(label s = lit ''negative'' \<longrightarrow>
      build_template_reply ucd review s aspects customer_name =
        name_prefix customer_name @ lit '' ''
        @ (if is_strong_negative ucd review then lit ''We'' @ [0x2019] @ lit ''re truly sorry''
           else lit ''We're sorry'')
        @ lit '' that your experience with the '' @ join (lit '', '') aspects
        @ lit '' didn't meet expectations. Your feedback helps us improve.''
        @ lit ''\<newline>\<newline>'' @ lit ''Sincerely, SteamNoodles Support'')
   \<and> (label s = lit ''negative'' \<and> is_strong_negative ucd review
        \<and> \<not> is_strong_negative ucd review' \<longrightarrow>
      build_template_reply ucd review s aspects customer_name
        \<noteq> build_template_reply ucd review' s aspects customer_name)
   \<and> (label s = lit ''positive'' \<or> label s = lit ''neutral'' \<longrightarrow>
      build_template_reply ucd review s aspects customer_name
        = build_template_reply ucd review' s aspects customer_name)"
proof (intro conjI impI)
  assume n: "label s = lit ''negative''"
  with negative_not_others show "build_template_reply ucd review s aspects customer_name =
        name_prefix customer_name @ lit '' ''
        @ (if is_strong_negative ucd review then lit ''We'' @ [0x2019] @ lit ''re truly sorry''
           else lit ''We're sorry'')
        @ lit '' that your experience with the '' @ join (lit '', '') aspects
        @ lit '' didn't meet expectations. Your feedback helps us improve.''
        @ lit ''\<newline>\<newline>'' @ lit ''Sincerely, SteamNoodles Support''"
    by (simp add: reply_other apology_def)
next
  assume a: "label s = lit ''negative'' \<and> is_strong_negative ucd review
        \<and> \<not> is_strong_negative ucd review'"
  then have "label s \<noteq> lit ''positive''" "label s \<noteq> lit ''neutral''"
    using negative_not_others by simp_all
  then show "build_template_reply ucd review s aspects customer_name
        \<noteq> build_template_reply ucd review' s aspects customer_name"
    using a by (simp add: reply_other apology_def lit_def)
next
  assume "label s = lit ''positive'' \<or> label s = lit ''neutral''"
  then show "build_template_reply ucd review s aspects customer_name
        = build_template_reply ucd review' s aspects customer_name"
    by (auto simp: reply_positive reply_neutral)
qed

theorem apology_by_severity_witness:
  "build_template_reply (\<lambda>s. s) (lit ''this is unacceptable'')
       \<lparr>label = lit ''negative'', confidence = (1::nat)\<rparr> [lit ''service''] None
     = lit ''Hi there, We'' @ [0x2019] @ lit ''re truly sorry that your experience with the service didn't meet expectations. Your feedback helps us improve.\<newline>\<newline>Sincerely, SteamNoodles Support''
   \<and> build_template_reply (\<lambda>s. s) (lit ''this is unacceptable'')
       \<lparr>label = lit ''negative'', confidence = (1::nat)\<rparr> [lit ''service''] None
     \<noteq> build_template_reply (\<lambda>s. s) (lit ''the soup was cold'')
       \<lparr>label = lit ''negative'', confidence = (1::nat)\<rparr> [lit ''service''] None
   \<and> build_template_reply (\<lambda>s. s) (lit ''this is unacceptable'')
       \<lparr>label = lit ''positive'', confidence = (1::nat)\<rparr> [lit ''service''] None
     = build_template_reply (\<lambda>s. s) (lit ''the soup was cold'')
       \<lparr>label = lit ''positive'', confidence = (1::nat)\<rparr> [lit ''service''] None"
proof -
  have sev: "is_strong_negative (\<lambda>s. s) (lit ''this is unacceptable'')"
       "\<not> is_strong_negative (\<lambda>s. s) (lit ''the soup was cold'')"
    by (simp_all add: is_strong_negative_def NEG_STRONG_TERMS_def eval_text)
  have np: "name_prefix None = lit ''Hi there,''"
    by (simp add: name_prefix_def)
  note neg = apology_by_severity [of "\<lparr>label = lit ''negative'', confidence = (1::nat)\<rparr>" "\<lambda>s. s"
             "lit ''this is unacceptable''" "[lit ''service'']" None "lit ''the soup was cold''"]
  note pos = apology_by_severity [of "\<lparr>label = lit ''positive'', confidence = (1::nat)\<rparr>" "\<lambda>s. s"
             "lit ''this is unacceptable''" "[lit ''service'']" None "lit ''the soup was cold''"]
  have a: "build_template_reply (\<lambda>s. s) (lit ''this is unacceptable'')
       \<lparr>label = lit ''negative'', confidence = (1::nat)\<rparr> [lit ''service''] None
     = lit ''Hi there, We'' @ [0x2019] @ lit ''re truly sorry that your experience with the service didn't meet expectations. Your feedback helps us improve.\<newline>\<newline>Sincerely, SteamNoodles Support''"
    using neg [THEN conjunct1] sev np by (simp add: lit_def)
  have b: "build_template_reply (\<lambda>s. s) (lit ''this is unacceptable'')
       \<lparr>label = lit ''negative'', confidence = (1::nat)\<rparr> [lit ''service''] None
     \<noteq> build_template_reply (\<lambda>s. s) (lit ''the soup was cold'')
       \<lparr>label = lit ''negative'', confidence = (1::nat)\<rparr> [lit ''service''] None"
    using neg [THEN conjunct2, THEN conjunct1] sev by simp
  have c: "build_template_reply (\<lambda>s. s) (lit ''this is unacceptable'')
       \<lparr>label = lit ''positive'', confidence = (1::nat)\<rparr> [lit ''service''] None
     = build_template_reply (\<lambda>s. s) (lit ''the soup was cold'')
       \<lparr>label = lit ''positive'', confidence = (1::nat)\<rparr> [lit ''service''] None"
    using pos [THEN conjunct2, THEN conjunct2] by simp
  from a b c show ?thesis by blast
qed

text \<open>
  Claim C6. A label outside "positive", "neutral" and "negative" takes the last branch:
  the reply is the one for the label "negative", with the apology body and the closing
  "Sincerely, SteamNoodles Support".
\<close>

theorem unrecognized_label_falls_through:
  "label s \<notin> {lit ''positive'', lit ''neutral'', lit ''negative''} \<Longrightarrow>
     build_template_reply ucd review s aspects customer_name
       = build_template_reply ucd review (s\<lparr>label := lit ''negative''\<rparr>) aspects customer_name
     \<and> build_template_reply ucd review s aspects customer_name =
         name_prefix customer_name
         @ lit '' '' @ apology ucd review @ lit '' that your experience with the ''
         @ join (lit '', '') aspects
         @ lit '' didn't meet expectations. Your feedback helps us improve.''
         @ lit ''\<newline>\<newline>'' @ lit ''Sincerely, SteamNoodles Support''"
  using negative_not_others by (simp add: reply_other)

theorem unrecognized_label_falls_through_witness:
  "lit ''POSITIVE'' \<notin> {lit ''positive'', lit ''neutral'', lit ''negative''}
   \<and> build_template_reply (\<lambda>s. s) (lit ''great soup'')
       \<lparr>label = lit ''POSITIVE'', confidence = (1::nat)\<rparr> [lit ''food''] None
     = lit ''Hi there, We're sorry that your experience with the food didn't meet expectations. Your feedback helps us improve.\<newline>\<newline>Sincerely, SteamNoodles Support''"
proof -
  have h: "label \<lparr>label = lit ''POSITIVE'', confidence = (1::nat)\<rparr>
             \<notin> {lit ''positive'', lit ''neutral'', lit ''negative''}"
    by (simp add: lit_def)
  have sev: "\<not> is_strong_negative (\<lambda>s. s) (lit ''great soup'')"
    by (simp add: is_strong_negative_def NEG_STRONG_TERMS_def eval_text)
  have "build_template_reply (\<lambda>s. s) (lit ''great soup'')
       \<lparr>label = lit ''POSITIVE'', confidence = (1::nat)\<rparr> [lit ''food''] None
     = lit ''Hi there, We're sorry that your experience with the food didn't meet expectations. Your feedback helps us improve.\<newline>\<newline>Sincerely, SteamNoodles Support''"
    using unrecognized_label_falls_through [OF h, of "\<lambda>s. s" "lit ''great soup''" "[lit ''food'']" None,
            THEN conjunct2] sev
    by (simp add: lit_def name_prefix_def apology_def)
  then show ?thesis using h by simp
qed

section \<open>The extraction of the paraphrase\<close>

lemma strip_empty_iff: "strip s = [] \<longleftrightarrow> list_all isspace s"
proof (cases "dropWhile isspace s = []")
  case True
  have "strip s = []"
    unfolding strip_def True by simp
  moreover have "list_all isspace s"
    using True by (simp add: dropWhile_eq_Nil_conv list_all_iff)
  ultimately show ?thesis by simp
next
  case False
  then have h: "\<not> isspace (hd (dropWhile isspace s))"
    by (rule hd_dropWhile)
  have m: "hd (dropWhile isspace s) \<in> set (rev (dropWhile isspace s))"
    using False by simp
  have "dropWhile isspace (rev (dropWhile isspace s)) \<noteq> []"
    using h m by (auto simp: dropWhile_eq_Nil_conv)
  then have "strip s \<noteq> []"
    by (simp add: strip_def)
  moreover have "\<not> list_all isspace s"
    using False by (simp add: dropWhile_eq_Nil_conv list_all_iff)
  ultimately show ?thesis by simp
qed

lemma partition_first_None: "sep \<noteq> [] \<Longrightarrow> partition_first sep s = None \<longleftrightarrow> \<not> contains sep s"
  by (induction s) (auto split: option.splits)

lemma prefix_shorter:
  "prefix xs (ys @ zs) \<Longrightarrow> length xs \<le> length ys \<Longrightarrow> prefix xs ys"
  using prefix_length_prefix [of xs "ys @ zs" ys] by simp

lemma partition_first_Some:
  "sep \<noteq> [] \<Longrightarrow> \<not> contains sep (pre @ butlast sep) \<Longrightarrow>
     partition_first sep (pre @ sep @ post) = Some (pre, post)"
proof (induction pre)
  case Nil
  then obtain c cs where s: "sep = c # cs" by (cases sep) auto
  show ?case
    using s by simp
next
  case (Cons p ps)
  have n: "\<not> contains sep (ps @ butlast sep)"
    using Cons.prems(2) by simp
  have "\<not> prefix sep ((p # ps) @ sep @ post)"
  proof
    assume a: "prefix sep ((p # ps) @ sep @ post)"
    have "butlast sep @ [last sep] = sep"
      using Cons.prems(1) by simp
    then have "(p # ps) @ sep @ post = (p # ps) @ (butlast sep @ [last sep]) @ post"
      by (simp only:)
    then have eq: "(p # ps) @ sep @ post = ((p # ps) @ butlast sep) @ ([last sep] @ post)"
      by (simp only: append_assoc)
    from a have "prefix sep (((p # ps) @ butlast sep) @ ([last sep] @ post))"
      by (simp only: eq)
    then have "prefix sep ((p # ps) @ butlast sep)"
      by (rule prefix_shorter) simp
    then have "contains sep ((p # ps) @ butlast sep)"
      by (simp add: contains_sublist)
    then show False using Cons.prems(2) by simp
  qed
  then show ?case
    using Cons.IH [OF Cons.prems(1) n] by simp
qed

lemma marker_nonempty: "lit ''Paraphrase:'' \<noteq> []"
  by (simp add: lit_def)

text \<open>
  Claim C9, as stated, fails: the extraction has no fallback to a non-empty string. A
  generator output without the marker that is blank gives the empty reply, and so does
  an output that ends with the marker (the prompt returned with nothing after it).
\<close>

theorem paraphrased_may_be_empty:
  "\<not> contains (lit ''Paraphrase:'') (lit '' '')
   \<and> paraphrased (lit '' '') = Inr []
   \<and> fst (maybe_paraphrase (fixed_output_lib (lit '' '')) (lit ''Hi there,'') True fresh_world) = Inr []
   \<and> fst (maybe_paraphrase
        (fixed_output_lib (lit ''Paraphrase politely and concisely (2 sentences max). Original: Hi there,\<newline>Paraphrase:''))
        (lit ''Hi there,'') True fresh_world) = Inr []"
  by (simp add: maybe_paraphrase_def get_gen_pipe_def fixed_output_lib_def fresh_world_def
        paraphrased_def split1_def index_last_def strip_def isspace_def whitespace_def lit_def)

text \<open>
  Claim C9, amended. With paraphrasing enabled, for every string the generator returns
  the extraction does not raise. It returns the text after the first "Paraphrase:"
  marker, or the whole output when the marker is absent, with leading and trailing
  whitespace removed; the result is empty exactly when that text is all whitespace.
\<close>

theorem paraphrased_extraction:
  "(\<forall>e. paraphrased out \<noteq> Inl e)
   \<and> (\<not> contains (lit ''Paraphrase:'') out \<longrightarrow> paraphrased out = Inr (strip out))
   \<and> (out = pre @ lit ''Paraphrase:'' @ post
        \<and> \<not> contains (lit ''Paraphrase:'') (pre @ butlast (lit ''Paraphrase:''))
      \<longrightarrow> paraphrased out = Inr (strip post))
   \<and> (strip t = [] \<longleftrightarrow> list_all isspace t)
   \<and> (get_gen_pipe lib w = (Inr gen, w1)
        \<and> generate lib gen (events w1)
             (lit ''Paraphrase politely and concisely (2 sentences max). Original: '' @ reply
                @ lit ''\<newline>Paraphrase:'') = Inr out
      \<longrightarrow> fst (maybe_paraphrase lib reply True w) = paraphrased out)"
proof (intro conjI allI impI)
  fix e show "paraphrased out \<noteq> Inl e"
    using marker_nonempty
    by (simp add: paraphrased_def split1_def index_last_def split: option.splits)
next
  assume "\<not> contains (lit ''Paraphrase:'') out"
  then have "partition_first (lit ''Paraphrase:'') out = None"
    using partition_first_None [OF marker_nonempty] by simp
  then show "paraphrased out = Inr (strip out)"
    using marker_nonempty by (simp add: paraphrased_def split1_def index_last_def)
next
  assume a: "out = pre @ lit ''Paraphrase:'' @ post
        \<and> \<not> contains (lit ''Paraphrase:'') (pre @ butlast (lit ''Paraphrase:''))"
  then have "partition_first (lit ''Paraphrase:'') out = Some (pre, post)"
    using partition_first_Some [OF marker_nonempty, of pre post] by simp
  then show "paraphrased out = Inr (strip post)"
    using marker_nonempty by (simp add: paraphrased_def split1_def index_last_def)
next
  show "strip t = [] \<longleftrightarrow> list_all isspace t"
    by (rule strip_empty_iff)
next
  assume "get_gen_pipe lib w = (Inr gen, w1)
        \<and> generate lib gen (events w1)
             (lit ''Paraphrase politely and concisely (2 sentences max). Original: '' @ reply
                @ lit ''\<newline>Paraphrase:'') = Inr out"
  then show "fst (maybe_paraphrase lib reply True w) = paraphrased out"
    by (simp add: maybe_paraphrase_def Let_def)
qed

theorem paraphrased_extraction_witness:
  "paraphrased (lit ''  Thanks a lot! '') = Inr (lit ''Thanks a lot!'')
   \<and> paraphrased (lit ''Original: Hi\<newline>Paraphrase: Hello Paraphrase: x '')
       = Inr (lit ''Hello Paraphrase: x'')
   \<and> fst (maybe_paraphrase (fixed_output_lib (lit ''Original: Hi\<newline>Paraphrase: Hello''))
            (lit ''Hi'') True fresh_world) = Inr (lit ''Hello'')"
proof -
  note t = paraphrased_extraction
  have a: "paraphrased (lit ''  Thanks a lot! '') = Inr (lit ''Thanks a lot!'')"
    using t [of "lit ''  Thanks a lot! ''", THEN conjunct2, THEN conjunct1]
    by (simp add: lit_def strip_def isspace_def whitespace_def)
  have b: "paraphrased (lit ''Original: Hi\<newline>Paraphrase: Hello Paraphrase: x '')
       = Inr (lit ''Hello Paraphrase: x'')"
    using t [of "lit ''Original: Hi\<newline>Paraphrase: Hello Paraphrase: x ''"
               "lit ''Original: Hi\<newline>''" "lit '' Hello Paraphrase: x ''",
             THEN conjunct2, THEN conjunct2, THEN conjunct1]
    by (simp add: lit_def strip_def isspace_def whitespace_def)
  have c: "fst (maybe_paraphrase (fixed_output_lib (lit ''Original: Hi\<newline>Paraphrase: Hello''))
            (lit ''Hi'') True fresh_world) = paraphrased (lit ''Original: Hi\<newline>Paraphrase: Hello'')"
    using t [of "lit ''Original: Hi\<newline>Paraphrase: Hello''" pre post t
               "fixed_output_lib (lit ''Original: Hi\<newline>Paraphrase: Hello'')" fresh_world 0
               "\<lparr>gen_pipe = Some 0, events = [PipelineCalled]\<rparr>" "lit ''Hi''",
             THEN conjunct2, THEN conjunct2, THEN conjunct2, THEN conjunct2]
    by (simp add: get_gen_pipe_def fixed_output_lib_def fresh_world_def)
  have d: "paraphrased (lit ''Original: Hi\<newline>Paraphrase: Hello'') = Inr (lit ''Hello'')"
    using t [of "lit ''Original: Hi\<newline>Paraphrase: Hello''"
               "lit ''Original: Hi\<newline>''" "lit '' Hello''",
             THEN conjunct2, THEN conjunct2, THEN conjunct1]
    by (simp add: lit_def strip_def isspace_def whitespace_def)
  from a b c d show ?thesis by simp
qed

section \<open>The aspect ranking\<close>

text \<open>The loop over the categories is a filter followed by a map.\<close>

lemma foldl_hit_step:
  "foldl (hit_step t) acc items
     = acc @ map (\<lambda>(a, kws). (a, score kws t)) (filter (\<lambda>(a, kws). 0 < score kws t) items)"
  by (induction items arbitrary: acc) (auto simp: hit_step_def Let_def)

lemma collect_hits_eq:
  "collect_hits items t
     = map (\<lambda>(a, kws). (a, score kws t)) (filter (\<lambda>(a, kws). 0 < score kws t) items)"
  by (simp add: collect_hits_def foldl_hit_step)

lemma score_length: "score kws t = int (length (filter (\<lambda>kw. contains kw t) kws))"
  unfolding score_def by (induction kws) auto

lemma score_card:
  "distinct kws \<Longrightarrow> score kws t = int (card {kw \<in> set kws. contains kw t})"
  by (simp add: score_length distinct_length_filter Int_def conj_commute)

lemma score_pos_iff: "0 < score kws t \<longleftrightarrow> (\<exists>kw \<in> set kws. contains kw t)"
  by (auto simp: score_length filter_empty_conv)

lemma insort_key_sorted_wrt:
  "sorted_wrt (\<lambda>a b. f a < f b \<or> (f a = f b \<and> R a b)) ys \<Longrightarrow> \<forall>y \<in> set ys. R x y \<Longrightarrow>
     sorted_wrt (\<lambda>a b. f a < f b \<or> (f a = f b \<and> R a b)) (insort_key f x ys)"
  by (induction ys) (auto simp: set_insort_key)

lemma sort_key_sorted_wrt:
  "sorted_wrt R xs \<Longrightarrow>
     sorted_wrt (\<lambda>a b. f a < f b \<or> (f a = f b \<and> R a b)) (sort_key f xs)"
proof (induction xs)
  case Nil
  then show ?case by simp
next
  case (Cons x xs)
  then have "\<forall>y \<in> set (sort_key f xs). R x y" by simp
  then show ?case
    using Cons by (simp add: insort_key_sorted_wrt)
qed

lemma keys_distinct: "distinct (map fst ASPECT_KEYWORDS)"
  by (simp add: ASPECT_KEYWORDS_def lit_def)

lemma keywords_distinct: "(a, kws) \<in> set ASPECT_KEYWORDS \<Longrightarrow> distinct kws"
  by (auto simp: ASPECT_KEYWORDS_def lit_def)

lemma keywords_of_item: "(a, kws) \<in> set ASPECT_KEYWORDS \<Longrightarrow> keywords_of a = kws"
  using keys_distinct by (simp add: keywords_of_def)

lemma enum_sorted:
  "sorted_wrt (\<lambda>a b. enum_index a < enum_index b) (map fst ASPECT_KEYWORDS)"
  by (simp add: enum_index_def ASPECT_KEYWORDS_def lit_def)


lemma hits_facts:
  assumes "h \<in> set (collect_hits ASPECT_KEYWORDS t)"
  shows "(fst h, keywords_of (fst h)) \<in> set ASPECT_KEYWORDS"
    and "snd h = int (hit_count (fst h) t)"
    and "0 < hit_count (fst h) t"
proof -
  from assms obtain a kws where m: "(a, kws) \<in> set ASPECT_KEYWORDS"
    and h: "h = (a, score kws t)" and p: "0 < score kws t"
    by (auto simp: collect_hits_eq)
  have k: "keywords_of a = kws" using m by (rule keywords_of_item)
  have c: "score kws t = int (hit_count a t)"
    using keywords_distinct [OF m] by (simp add: score_card hit_count_def k)
  show "(fst h, keywords_of (fst h)) \<in> set ASPECT_KEYWORDS" using m h k by simp
  show "snd h = int (hit_count (fst h) t)" using h c by simp
  show "0 < hit_count (fst h) t" using h c p by simp
qed

lemma hits_enum_sorted:
  "sorted_wrt (\<lambda>h h'. enum_index (fst h) < enum_index (fst h')) (collect_hits ASPECT_KEYWORDS t)"
proof -
  have "sorted_wrt (\<lambda>p q. enum_index (fst p) < enum_index (fst q)) ASPECT_KEYWORDS"
    using enum_sorted by (simp add: sorted_wrt_map)
  then have "sorted_wrt (\<lambda>p q. enum_index (fst p) < enum_index (fst q))
               (filter (\<lambda>(a, kws). 0 < score kws t) ASPECT_KEYWORDS)"
    by (rule sorted_wrt_filter)
  then show ?thesis
    by (simp add: collect_hits_eq sorted_wrt_map case_prod_unfold)
qed

lemma sorted_hits_ranked:
  "sorted_wrt (\<lambda>h h'. ranks_before t (fst h) (fst h')) (sort_hits (collect_hits ASPECT_KEYWORDS t))"
proof -
  let ?hits = "collect_hits ASPECT_KEYWORDS t"
  have s: "sorted_wrt (\<lambda>a b. - snd a < - snd b
              \<or> (- snd a = - snd b \<and> enum_index (fst a) < enum_index (fst b))) (sort_hits ?hits)"
    unfolding sort_hits_def using hits_enum_sorted by (rule sort_key_sorted_wrt)
  show ?thesis
  proof (rule sorted_wrt_mono_rel [OF _ s])
    fix x y
    assume "x \<in> set (sort_hits ?hits)" "y \<in> set (sort_hits ?hits)"
    then have x: "snd x = int (hit_count (fst x) t)" and y: "snd y = int (hit_count (fst y) t)"
      by (simp_all add: sort_hits_def hits_facts)
    assume "- snd x < - snd y \<or> (- snd x = - snd y \<and> enum_index (fst x) < enum_index (fst y))"
    then show "ranks_before t (fst x) (fst y)"
      using x y by (auto simp: ranks_before_def)
  qed
qed

lemma slice_to_take: "\<exists>n. slice_to xs m = take n xs"
  by (auto simp: slice_to_def)

lemma length_slice_to: "0 \<le> m \<Longrightarrow> int (length (slice_to xs m)) \<le> m"
  by (simp add: slice_to_def)

lemma detect_aspects_unfold:
  "detect_aspects ucd text m =
     (if slice_to (sort_hits (collect_hits ASPECT_KEYWORDS (lower ucd text))) m = []
      then [lit ''no specific aspect'']
      else map fst (slice_to (sort_hits (collect_hits ASPECT_KEYWORDS (lower ucd text))) m))"
  by (simp add: detect_aspects_def Let_def)

lemma item_score:
  "(a, kws) \<in> set ASPECT_KEYWORDS \<Longrightarrow> score kws t = int (hit_count a t)"
  using keywords_distinct [of a kws] by (simp add: score_card hit_count_def keywords_of_item)

lemma hits_names:
  "map fst (collect_hits ASPECT_KEYWORDS t)
     = filter (\<lambda>a. 0 < hit_count a t) (map fst ASPECT_KEYWORDS)"
proof -
  have "filter (\<lambda>(a, kws). 0 < score kws t) ASPECT_KEYWORDS
          = filter (\<lambda>p. 0 < hit_count (fst p) t) ASPECT_KEYWORDS"
    by (rule filter_cong) (auto simp: item_score)
  then show ?thesis
    by (simp add: collect_hits_eq filter_map comp_def case_prod_unfold)
qed

lemma hit_count_pos_category:
  "0 < hit_count b t \<Longrightarrow> b \<in> set (map fst ASPECT_KEYWORDS)"
proof -
  assume "0 < hit_count b t"
  then have "keywords_of b \<noteq> []"
    by (auto simp: hit_count_def)
  then obtain kws where "map_of ASPECT_KEYWORDS b = Some kws"
    by (auto simp: keywords_of_def split: option.splits)
  then have "(b, kws) \<in> set ASPECT_KEYWORDS" by (rule map_of_SomeD)
  then show ?thesis by force
qed

lemma hits_complete:
  "0 < hit_count b t \<Longrightarrow> b \<in> set (map fst (collect_hits ASPECT_KEYWORDS t))"
  using hit_count_pos_category [of b t] by (simp add: hits_names)

lemma set_sort_hits: "set (sort_hits hits) = set hits"
  by (simp add: sort_hits_def)

lemma keys_eq:
  "map fst ASPECT_KEYWORDS
     = [lit ''food'', lit ''service'', lit ''ambiance'', lit ''price'', lit ''delivery'']"
  by (simp add: ASPECT_KEYWORDS_def)

text \<open>Evaluations of the ranking on concrete reviews.\<close>

lemma detect_aspects_zero: "detect_aspects ucd text 0 = [lit ''no specific aspect'']"
  by (simp add: detect_aspects_unfold slice_to_def)

lemma hits_food_staff_price: "collect_hits ASPECT_KEYWORDS (lower id (lit ''food staff price''))
   = [(lit ''food'', 1), (lit ''service'', 1), (lit ''price'', 1)]"
  by (simp add: collect_hits_def hit_step_def score_def ASPECT_KEYWORDS_def eval_text)

lemma sorted_food_staff_price: "sort_hits [(lit ''food'', 1), (lit ''service'', 1), (lit ''price'', 1)]
   = [(lit ''food'', 1), (lit ''service'', 1), (lit ''price'', 1)]"
  by (simp add: sort_hits_def)

lemma aspects_food_staff_price_negative: "detect_aspects id (lit ''food staff price'') (- 1) = [lit ''food'', lit ''service'']"
  by (simp add: detect_aspects_unfold hits_food_staff_price sorted_food_staff_price
        slice_to_def)

lemma hits_soup_staff_price_slow:
  "collect_hits ASPECT_KEYWORDS (lower id (lit ''soup staff price slow''))
   = [(lit ''food'', 1), (lit ''service'', 2), (lit ''price'', 1)]"
  by (simp add: collect_hits_def hit_step_def score_def ASPECT_KEYWORDS_def eval_text)

lemma sorted_soup_staff_price_slow:
  "sort_hits [(lit ''food'', 1), (lit ''service'', 2), (lit ''price'', 1)]
   = [(lit ''service'', 2), (lit ''food'', 1), (lit ''price'', 1)]"
  by (simp add: sort_hits_def)

lemma aspects_soup_staff_price_slow:
  "detect_aspects id (lit ''soup staff price slow'') 2 = [lit ''service'', lit ''food'']"
  by (simp add: detect_aspects_unfold hits_soup_staff_price_slow sorted_soup_staff_price_slow
        slice_to_def)

lemma hits_the_soup_was_cold:
  "collect_hits ASPECT_KEYWORDS (lower id (lit ''The SOUP was cold''))
   = [(lit ''food'', 2)]"
  by (simp add: collect_hits_def hit_step_def score_def ASPECT_KEYWORDS_def eval_text)

text \<open>
  Claim C2 as stated bounds the length of the result by \<open>max_aspects\<close> for every
  \<open>max_aspects\<close>. With \<open>max_aspects = 0\<close> the slice \<open>hits[:0]\<close> is empty and the sentinel
  list of length 1 is returned; with \<open>max_aspects = -1\<close> the slice \<open>hits[:-1]\<close> drops only
  the last of three matched categories and two are returned.
\<close>

theorem detect_aspects_length_counterexample:
  "detect_aspects id (lit ''good food'') 0 = [lit ''no specific aspect'']
   \<and> \<not> int (length (detect_aspects id (lit ''good food'') 0)) \<le> 0
   \<and> detect_aspects id (lit ''food staff price'') (- 1) = [lit ''food'', lit ''service'']
   \<and> \<not> int (length (detect_aspects id (lit ''food staff price'') (- 1))) \<le> - 1"
  by (simp add: detect_aspects_zero aspects_food_staff_price_negative)

text \<open>
  Claim C2, amended. For every text and every \<open>max_aspects\<close> the returned list is ordered
  by keyword hit count, descending, ties broken by the enumeration order of the
  categories. For every \<open>max_aspects\<close> of at least 1 its length is at most \<open>max_aspects\<close>, and
  every category it retains ranks before every matched category it leaves out.
\<close>

theorem detect_aspects_ranked:
  "sorted_wrt (ranks_before (lower ucd text)) (detect_aspects ucd text m)
   \<and> (1 \<le> m \<longrightarrow> int (length (detect_aspects ucd text m)) \<le> m)
   \<and> (1 \<le> m \<longrightarrow>
        (\<forall>a \<in> set (detect_aspects ucd text m). \<forall>b.
           0 < hit_count b (lower ucd text) \<and> b \<notin> set (detect_aspects ucd text m)
             \<longrightarrow> ranks_before (lower ucd text) a b))"
proof (intro conjI impI ballI allI)
  let ?t = "lower ucd text"
  let ?S = "sort_hits (collect_hits ASPECT_KEYWORDS ?t)"
  obtain n where n: "slice_to ?S m = take n ?S"
    using slice_to_take by blast
  have sS: "sorted_wrt (\<lambda>h h'. ranks_before ?t (fst h) (fst h')) ?S"
    by (rule sorted_hits_ranked)
  show "sorted_wrt (ranks_before ?t) (detect_aspects ucd text m)"
  proof (cases "slice_to ?S m = []")
    case True
    then show ?thesis by (simp add: detect_aspects_unfold)
  next
    case False
    have "sorted_wrt (\<lambda>h h'. ranks_before ?t (fst h) (fst h')) (take n ?S)"
      using sS by (rule sorted_wrt_take)
    then show ?thesis
      using False n by (simp add: detect_aspects_unfold sorted_wrt_map)
  qed
  {
    assume m: "1 \<le> m"
    show "int (length (detect_aspects ucd text m)) \<le> m"
      using m length_slice_to [of m ?S] by (simp add: detect_aspects_unfold)
    fix a b
    assume a: "a \<in> set (detect_aspects ucd text m)"
      and b: "0 < hit_count b ?t \<and> b \<notin> set (detect_aspects ucd text m)"
    from b obtain y where y: "y \<in> set ?S" "fst y = b"
      using hits_complete [of b ?t] by (auto simp: set_sort_hits)
    then have ne: "?S \<noteq> []" by auto
    have "slice_to ?S m = take (nat m) ?S"
      using m by (simp add: slice_to_def)
    then have nonempty: "slice_to ?S m \<noteq> []"
      using ne m by (cases ?S) (auto simp: take_Cons')
    then have r: "detect_aspects ucd text m = map fst (take n ?S)"
      using n by (simp add: detect_aspects_unfold)
    from a r obtain x where x: "x \<in> set (take n ?S)" "fst x = a" by auto
    have "y \<notin> set (take n ?S)"
      using b y r by force
    then have yd: "y \<in> set (drop n ?S)"
      using y(1) set_append [of "take n ?S" "drop n ?S"] by simp
    have "sorted_wrt (\<lambda>h h'. ranks_before ?t (fst h) (fst h')) (take n ?S @ drop n ?S)"
      using sS by simp
    then have "ranks_before ?t (fst x) (fst y)"
      using x(1) yd unfolding sorted_wrt_append by blast
    then show "ranks_before ?t a b"
      using x y by simp
  }
qed

theorem detect_aspects_ranked_witness:
  "detect_aspects id (lit ''soup staff price slow'') 2 = [lit ''service'', lit ''food'']
   \<and> ranks_before (lower id (lit ''soup staff price slow'')) (lit ''service'') (lit ''food'')
   \<and> ranks_before (lower id (lit ''soup staff price slow'')) (lit ''food'') (lit ''price'')
   \<and> int (length (detect_aspects id (lit ''soup staff price slow'') 2)) \<le> 2"
proof -
  let ?text = "lit ''soup staff price slow''"
  note r = detect_aspects_ranked [of id ?text 2]
  note e = aspects_soup_staff_price_slow
  have m: "(1::int) \<le> 2" by simp
  have s: "sorted_wrt (ranks_before (lower id ?text)) [lit ''service'', lit ''food'']"
    using r [THEN conjunct1] by (simp only: e)
  then have a: "ranks_before (lower id ?text) (lit ''service'') (lit ''food'')"
    by simp
  have l: "int (length (detect_aspects id ?text 2)) \<le> 2"
    using r [THEN conjunct2, THEN conjunct1] m by blast
  have "(lit ''price'', 1) \<in> set (collect_hits ASPECT_KEYWORDS (lower id ?text))"
    by (simp add: hits_soup_staff_price_slow)
  then have p: "0 < hit_count (lit ''price'') (lower id ?text)"
    using hits_facts(3) by fastforce
  have n: "lit ''price'' \<notin> set (detect_aspects id ?text 2)"
    unfolding e by (simp add: lit_def)
  have f: "lit ''food'' \<in> set (detect_aspects id ?text 2)"
    by (simp add: e)
  have b: "ranks_before (lower id ?text) (lit ''food'') (lit ''price'')"
    using r [THEN conjunct2, THEN conjunct2] m f p n by blast
  from e a b l show ?thesis by blast
qed

text \<open>
  Claim C3. For every text in which no keyword of any category occurs as a substring of
  the lowercased text, \<open>detect_aspects\<close> returns exactly \<open>["no specific aspect"]\<close>; its
  result is never the empty list.
\<close>

theorem detect_aspects_no_match:
  "((\<forall>(a, kws) \<in> set ASPECT_KEYWORDS. \<forall>kw \<in> set kws.
        \<not> (\<exists>pre post. lower ucd text = pre @ kw @ post))
      \<longrightarrow> detect_aspects ucd text m = [lit ''no specific aspect''])
   \<and> detect_aspects ucd text m \<noteq> []"
proof (intro conjI impI)
  assume a: "\<forall>(a, kws) \<in> set ASPECT_KEYWORDS. \<forall>kw \<in> set kws.
        \<not> (\<exists>pre post. lower ucd text = pre @ kw @ post)"
  have "filter (\<lambda>(a, kws). 0 < score kws (lower ucd text)) ASPECT_KEYWORDS = []"
    unfolding filter_empty_conv using a by (auto simp: score_pos_iff contains_iff)
  then have "collect_hits ASPECT_KEYWORDS (lower ucd text) = []"
    by (simp add: collect_hits_eq)
  then show "detect_aspects ucd text m = [lit ''no specific aspect'']"
    by (simp add: detect_aspects_unfold sort_hits_def slice_to_def)
next
  show "detect_aspects ucd text m \<noteq> []"
    by (simp add: detect_aspects_unfold)
qed

theorem detect_aspects_no_match_witness:
  "detect_aspects id (lit ''Thank you'') 2 = [lit ''no specific aspect'']"
proof -
  have "\<forall>(a, kws) \<in> set ASPECT_KEYWORDS. \<forall>kw \<in> set kws.
          \<not> contains kw (lower id (lit ''Thank you''))"
    by (simp add: ASPECT_KEYWORDS_def eval_text)
  then have "\<forall>(a, kws) \<in> set ASPECT_KEYWORDS. \<forall>kw \<in> set kws.
          \<not> (\<exists>pre post. lower id (lit ''Thank you'') = pre @ kw @ post)"
    unfolding contains_iff .
  then show ?thesis
    using detect_aspects_no_match [of id "lit ''Thank you''" 2, THEN conjunct1] by blast
qed

text \<open>
  Claim C4. The hit count of a category is the number of its keywords that occur as
  substrings of the lowercased text, each keyword counted once however often it occurs.
  The categories collected for ranking are exactly those with a positive hit count, so
  the result is the sentinel or consists of categories with a positive hit count. For
  a text in which only keywords of the food category occur the result is \<open>["food"]\<close>
  (for every \<open>max_aspects\<close> of at least 1, in particular the default 2).
\<close>

theorem detect_aspects_hit_counts:
  "(\<forall>(a, kws) \<in> set ASPECT_KEYWORDS.
      score kws t = int (card {kw \<in> set kws. \<exists>pre post. t = pre @ kw @ post})
      \<and> hit_count a t = card {kw \<in> set kws. \<exists>pre post. t = pre @ kw @ post})
   \<and> set (collect_hits ASPECT_KEYWORDS t)
       = {(a, int (hit_count a t)) | a. a \<in> set (map fst ASPECT_KEYWORDS) \<and> 0 < hit_count a t}
   \<and> (detect_aspects ucd text m = [lit ''no specific aspect'']
       \<or> (\<forall>a \<in> set (detect_aspects ucd text m).
             a \<in> set (map fst ASPECT_KEYWORDS) \<and> 0 < hit_count a (lower ucd text)))
   \<and> (0 < hit_count (lit ''food'') (lower ucd text)
       \<and> (\<forall>a. a \<noteq> lit ''food'' \<longrightarrow> hit_count a (lower ucd text) = 0)
       \<and> 1 \<le> m
      \<longrightarrow> detect_aspects ucd text m = [lit ''food''])"
proof (intro conjI)
  show "\<forall>(a, kws) \<in> set ASPECT_KEYWORDS.
      score kws t = int (card {kw \<in> set kws. \<exists>pre post. t = pre @ kw @ post})
      \<and> hit_count a t = card {kw \<in> set kws. \<exists>pre post. t = pre @ kw @ post}"
    using keywords_distinct
    by (auto simp: score_card hit_count_def keywords_of_item contains_iff)
next
  show "set (collect_hits ASPECT_KEYWORDS t)
       = {(a, int (hit_count a t)) | a. a \<in> set (map fst ASPECT_KEYWORDS) \<and> 0 < hit_count a t}"
  proof (intro set_eqI iffI)
    fix h assume h: "h \<in> set (collect_hits ASPECT_KEYWORDS t)"
    have "fst h \<in> set (map fst ASPECT_KEYWORDS)"
      using hits_facts(1) [OF h] by force
    then show "h \<in> {(a, int (hit_count a t)) | a.
                   a \<in> set (map fst ASPECT_KEYWORDS) \<and> 0 < hit_count a t}"
      using hits_facts(2,3) [OF h] by (cases h) auto
  next
    fix h assume "h \<in> {(a, int (hit_count a t)) | a.
                   a \<in> set (map fst ASPECT_KEYWORDS) \<and> 0 < hit_count a t}"
    then obtain a where a: "h = (a, int (hit_count a t))" "0 < hit_count a t" by auto
    then obtain h' where h': "h' \<in> set (collect_hits ASPECT_KEYWORDS t)" "fst h' = a"
      using hits_complete [of a t] by auto
    then have "h' = h"
      using hits_facts(2) [OF h'(1)] a(1) h'(2) by (simp add: prod_eq_iff)
    then show "h \<in> set (collect_hits ASPECT_KEYWORDS t)" using h'(1) by simp
  qed
next
  let ?S = "sort_hits (collect_hits ASPECT_KEYWORDS (lower ucd text))"
  show "detect_aspects ucd text m = [lit ''no specific aspect'']
       \<or> (\<forall>a \<in> set (detect_aspects ucd text m).
             a \<in> set (map fst ASPECT_KEYWORDS) \<and> 0 < hit_count a (lower ucd text))"
  proof (cases "slice_to ?S m = []")
    case True
    then show ?thesis by (simp add: detect_aspects_unfold)
  next
    case False
    obtain n where n: "slice_to ?S m = take n ?S" using slice_to_take by blast
    have "\<forall>a \<in> set (map fst (take n ?S)).
            a \<in> set (map fst ASPECT_KEYWORDS) \<and> 0 < hit_count a (lower ucd text)"
    proof
      fix a assume "a \<in> set (map fst (take n ?S))"
      then obtain h where "h \<in> set (take n ?S)" "fst h = a" by auto
      then have h: "h \<in> set (collect_hits ASPECT_KEYWORDS (lower ucd text))" "fst h = a"
        using set_take_subset [of n ?S] by (auto simp: set_sort_hits)
      have "fst h \<in> set (map fst ASPECT_KEYWORDS)"
        using hits_facts(1) [OF h(1)] by force
      then show "a \<in> set (map fst ASPECT_KEYWORDS) \<and> 0 < hit_count a (lower ucd text)"
        using hits_facts(3) [OF h(1)] h(2) by simp
    qed
    then show ?thesis
      using False n by (simp add: detect_aspects_unfold)
  qed
next
  show "0 < hit_count (lit ''food'') (lower ucd text)
       \<and> (\<forall>a. a \<noteq> lit ''food'' \<longrightarrow> hit_count a (lower ucd text) = 0)
       \<and> 1 \<le> m
      \<longrightarrow> detect_aspects ucd text m = [lit ''food'']"
  proof
    assume a: "0 < hit_count (lit ''food'') (lower ucd text)
       \<and> (\<forall>a. a \<noteq> lit ''food'' \<longrightarrow> hit_count a (lower ucd text) = 0)
       \<and> 1 \<le> m"
    have d: "lit ''food'' \<noteq> lit ''service''" "lit ''food'' \<noteq> lit ''ambiance''"
         "lit ''food'' \<noteq> lit ''price''" "lit ''food'' \<noteq> lit ''delivery''"
      by (simp_all add: lit_def)
    have "map fst (collect_hits ASPECT_KEYWORDS (lower ucd text)) = [lit ''food'']"
      using a d by (simp add: hits_names keys_eq)
    then obtain h where h: "collect_hits ASPECT_KEYWORDS (lower ucd text) = [h]" "fst h = lit ''food''"
      by auto
    then show "detect_aspects ucd text m = [lit ''food'']"
      using a by (simp add: detect_aspects_unfold sort_hits_def slice_to_def take_Cons')
  qed
qed

theorem detect_aspects_hit_counts_witness:
  "detect_aspects id (lit ''The SOUP was cold'') 2 = [lit ''food'']
   \<and> hit_count (lit ''food'') (lower id (lit ''The SOUP was cold'')) = 2"
proof -
  let ?text = "lit ''The SOUP was cold''"
  let ?t = "lower id ?text"
  note c = detect_aspects_hit_counts [of ?t id ?text 2]
  note e = hits_the_soup_was_cold
  have "(lit ''food'', 2) \<in> set (collect_hits ASPECT_KEYWORDS ?t)"
    by (simp add: e)
  then have "(lit ''food'', 2) \<in> {(a, int (hit_count a ?t)) | a.
            a \<in> set (map fst ASPECT_KEYWORDS) \<and> 0 < hit_count a ?t}"
    unfolding c [THEN conjunct2, THEN conjunct1] .
  then have h: "hit_count (lit ''food'') ?t = 2"
    by auto
  then have p: "0 < hit_count (lit ''food'') ?t" by simp
  have z: "\<forall>a. a \<noteq> lit ''food'' \<longrightarrow> hit_count a ?t = 0"
  proof (intro allI impI)
    fix a assume a: "a \<noteq> lit ''food''"
    show "hit_count a ?t = 0"
    proof (rule ccontr)
      assume "hit_count a ?t \<noteq> 0"
      then have "a \<in> set (map fst (collect_hits ASPECT_KEYWORDS ?t))"
        using hits_complete [of a ?t] by simp
      then show False using a by (simp add: e)
    qed
  qed
  have m: "(1::int) \<le> 2" by simp
  have "detect_aspects id ?text 2 = [lit ''food'']"
    using c [THEN conjunct2, THEN conjunct2, THEN conjunct2] p z m by blast
  then show ?thesis using h by blast
qed

end
